theory Spec2Isabelle
  imports Main "HOL-Library.Monad_Syntax"
begin

section \<open>JavaScript strings\<close>

text \<open>
  A JavaScript string is a sequence of UTF-16 code units. A code unit is modelled as a
  natural number (below 65536 in every string the program can hold) and a string as a
  list of them; no arithmetic is done on code units, so no wrap-around has to be written.
  \<open>js\<close> turns a literal of the theory into such a string.
\<close>

type_synonym jstring = "nat list"

definition js :: "string \<Rightarrow> jstring" where
  "js s = map of_char s"

section \<open>Regular expressions\<close>

text \<open>
  The program does all its text processing with regular-expression literals. They are
  modelled by an abstract syntax and a backtracking matcher that returns, for a pattern
  and a position, every way the pattern can end there, in the order in which the
  JavaScript matcher tries them; the first one is the match JavaScript reports.

  \<open>\s\<close> is the union of the WhiteSpace and LineTerminator code units of ECMAScript,
  \<open>.\<close> is every code unit but a line terminator (no pattern uses the \<open>s\<close> flag).
\<close>

definition is_line_terminator :: "nat \<Rightarrow> bool" where
  "is_line_terminator c = (c = 10 \<or> c = 13 \<or> c = 8232 \<or> c = 8233)"

definition is_space :: "nat \<Rightarrow> bool" where
  "is_space c =
     (c = 9 \<or> c = 10 \<or> c = 11 \<or> c = 12 \<or> c = 13 \<or> c = 32 \<or> c = 160 \<or> c = 5760
      \<or> (8192 \<le> c \<and> c \<le> 8202) \<or> c = 8232 \<or> c = 8233 \<or> c = 8239 \<or> c = 8287
      \<or> c = 12288 \<or> c = 65279)"

text \<open>
  Under the \<open>i\<close> flag (without \<open>u\<close>) two code units match when their canonical forms
  agree: the upper-case mapping, except that a code unit from 128 on never canonicalises
  to one below 128. Every pattern of the program is ASCII, so the only comparisons made
  are against ASCII code units, for which the canonical form below decides the same:
  an ASCII letter matches exactly its two case variants.
\<close>

definition canonicalize :: "nat \<Rightarrow> nat" where
  "canonicalize c = (if 97 \<le> c \<and> c \<le> 122 then c - 32 else c)"

definition same_char :: "bool \<Rightarrow> nat \<Rightarrow> nat \<Rightarrow> bool" where
  "same_char i a c = (if i then canonicalize a = canonicalize c else a = c)"

datatype cclass =
    Ch nat
  | OneOf "nat list"
  | NoneOf "nat list"
  | Dot
  | Space
  | NonSpace
  | AnyChar

datatype regex =
    Atom cclass
  | Eps
  | Bol
  | Eol
  | Seq regex regex
  | Alt regex regex
  | Opt regex
  | Star regex
  | LazyStar regex

text \<open>
  \<open>Ch a\<close> is the pattern character \<open>a\<close>, \<open>OneOf\<close> a class \<open>[...]\<close>, \<open>NoneOf\<close> a class
  \<open>[^...]\<close>, \<open>AnyChar\<close> the class \<open>[\s\S]\<close>; \<open>Bol\<close> and \<open>Eol\<close> are \<open>^\<close> and \<open>$\<close> without
  the \<open>m\<close> flag (start and end of the whole input); \<open>Opt\<close> is \<open>?\<close>, \<open>Star\<close> is \<open>*\<close>,
  \<open>LazyStar\<close> is \<open>*?\<close>. The first argument of the matcher is the \<open>i\<close> flag.
\<close>

fun cls_match :: "bool \<Rightarrow> cclass \<Rightarrow> nat \<Rightarrow> bool" where
  "cls_match i (Ch a) c = same_char i a c"
| "cls_match i (OneOf as) c = list_ex (\<lambda>a. same_char i a c) as"
| "cls_match i (NoneOf as) c = (\<not> list_ex (\<lambda>a. same_char i a c) as)"
| "cls_match i Dot c = (\<not> is_line_terminator c)"
| "cls_match i Space c = is_space c"
| "cls_match i NonSpace c = (\<not> is_space c)"
| "cls_match i AnyChar c = True"

text \<open>
  A matcher state is the rest of the input together with a flag telling whether the
  position is the start of the input. An iteration of a star that consumes nothing is
  rejected, as ECMAScript does.
\<close>

type_synonym mstate = "bool \<times> jstring"

fun ends :: "bool \<Rightarrow> regex \<Rightarrow> mstate \<Rightarrow> mstate list" where
  "ends i (Atom c) st =
     (case snd st of [] \<Rightarrow> [] | x # xs \<Rightarrow> if cls_match i c x then [(False, xs)] else [])"
| "ends i Eps st = [st]"
| "ends i Bol st = (if fst st then [st] else [])"
| "ends i Eol st = (if snd st = [] then [st] else [])"
| "ends i (Seq p q) st = concat (map (ends i q) (ends i p st))"
| "ends i (Alt p q) st = ends i p st @ ends i q st"
| "ends i (Opt p) st = ends i p st @ [st]"
| "ends i (Star p) st =
     concat (map (\<lambda>st'. if length (snd st') < length (snd st) then ends i (Star p) st' else [])
                 (ends i p st)) @ [st]"
| "ends i (LazyStar p) st =
     st # concat (map (\<lambda>st'. if length (snd st') < length (snd st) then ends i (LazyStar p) st'
                             else [])
                      (ends i p st))"

definition Plus :: "regex \<Rightarrow> regex" where
  "Plus p = Seq p (Star p)"

text \<open>The match at a position, if any: the rest of the input after it.\<close>

definition exec_at :: "bool \<Rightarrow> regex \<Rightarrow> mstate \<Rightarrow> jstring option" where
  "exec_at i r st = (case ends i r st of [] \<Rightarrow> None | e # _ \<Rightarrow> Some (snd e))"

text \<open>\<open>RegExp.prototype.test\<close> for a pattern without the \<open>g\<close> flag: is there a match anywhere?\<close>

fun search :: "bool \<Rightarrow> regex \<Rightarrow> mstate \<Rightarrow> bool" where
  "search i r st =
     (if exec_at i r st \<noteq> None then True
      else (case snd st of [] \<Rightarrow> False | x # xs \<Rightarrow> search i r (False, xs)))"

definition test :: "bool \<Rightarrow> regex \<Rightarrow> jstring \<Rightarrow> bool" where
  "test i r s = search i r (True, s)"

text \<open>
  \<open>String.prototype.replace\<close> with a pattern that has the \<open>g\<close> flag and a replacement
  string without \<open>$\<close>: every match, from left to right, is replaced; after an empty match
  the search moves on by one code unit.
\<close>

fun replace_from :: "bool \<Rightarrow> regex \<Rightarrow> jstring \<Rightarrow> mstate \<Rightarrow> jstring" where
  "replace_from i r rep st =
     (case exec_at i r st of
        None \<Rightarrow> (case snd st of [] \<Rightarrow> [] | x # xs \<Rightarrow> x # replace_from i r rep (False, xs))
      | Some rest \<Rightarrow>
          if length rest < length (snd st) then rep @ replace_from i r rep (False, rest)
          else rep @ (case snd st of [] \<Rightarrow> []
                      | x # xs \<Rightarrow> x # replace_from i r rep (False, xs)))"

definition replace_all :: "bool \<Rightarrow> regex \<Rightarrow> jstring \<Rightarrow> jstring \<Rightarrow> jstring" where
  "replace_all i r rep s = replace_from i r rep (True, s)"

text \<open>Pattern text, sequences and alternatives.\<close>

fun lit :: "string \<Rightarrow> regex" where
  "lit [] = Eps"
| "lit (c # cs) = Seq (Atom (Ch (of_char c))) (lit cs)"

fun seqs :: "regex list \<Rightarrow> regex" where
  "seqs [] = Eps"
| "seqs [r] = r"
| "seqs (r # rs) = Seq r (seqs rs)"

fun alts :: "regex list \<Rightarrow> regex" where
  "alts [] = Atom (OneOf [])"
| "alts [r] = r"
| "alts (r # rs) = Alt r (alts rs)"

text \<open>
  \<open>String.prototype.trim\<close> removes white space and line terminators from both ends,
  the code units of \<open>\s\<close>.
\<close>

definition trim :: "jstring \<Rightarrow> jstring" where
  "trim s = rev (dropWhile is_space (rev (dropWhile is_space s)))"

section \<open>The platform\<close>

text \<open>
  A value produced by \<open>JSON.parse\<close>. A number is kept as the string that \<open>String(n)\<close>
  gives for it, the only thing the program can observe of a number here. A property
  read can also yield \<open>undefined\<close>.
\<close>

datatype json =
    JNull
  | JBool bool
  | JNum jstring
  | JStr jstring
  | JArr "json list"
  | JObj "(jstring \<times> json) list"

datatype jsval = Undefined | Val json

text \<open>
  The built-ins of the browser that the program calls and that are not part of the
  repository. A built-in that can throw returns an option, \<open>None\<close> for the exception.
  \<^item> \<open>atob\<close>: base64 to a binary string; throws on a malformed input.
  \<^item> \<open>decodeURIComponent\<close>: throws on a malformed escape or invalid UTF-8.
  \<^item> \<open>textContent\<close>: the value of \<open>temp.textContent || temp.innerText || ''\<close> for a fresh
    \<open>div\<close> whose \<open>innerHTML\<close> was set to the argument; \<open>None\<close> when touching \<open>document\<close>
    throws, as it does in a service worker, where \<open>document\<close> is not defined.
  \<^item> \<open>toLowerCase\<close>: \<open>String.prototype.toLowerCase\<close>, a Unicode mapping.
  \<^item> \<open>JSON_parse\<close>: \<open>JSON.parse\<close> on a string; throws on text that is not JSON.
  Every theorem below holds for every platform.
\<close>

record platform =
  atob :: "jstring \<Rightarrow> jstring option"
  decodeURIComponent :: "jstring \<Rightarrow> jstring option"
  textContent :: "jstring \<Rightarrow> jstring option"
  toLowerCase :: "jstring \<Rightarrow> jstring"
  JSON_parse :: "jstring \<Rightarrow> json option"

section \<open>gmail.js: body extraction\<close>

text \<open>
  A message part as the Gmail API delivers it: \<open>mimeType\<close>, \<open>body\<close> with its \<open>data\<close>, and
  \<open>parts\<close>. An absent property is \<open>None\<close>. The program only tests \<open>parts\<close> for truthiness
  and iterates it; an absent \<open>parts\<close> and an empty array behave alike (both reach the final
  \<open>return ''\<close>), and both are the empty list here.
\<close>

datatype MessagePartBody = MessagePartBody (data: "jstring option")

datatype RawMessage =
  RawMessage (mimeType: "jstring option") (body: "MessagePartBody option") (parts: "RawMessage list")

text \<open>
  \<open>payload.body?.data\<close>, read as a string: absent and empty are both falsy, and are both
  the empty string here.
\<close>

definition body_data :: "RawMessage \<Rightarrow> jstring" where
  "body_data p =
     (case body p of None \<Rightarrow> []
      | Some b \<Rightarrow> (case data b of None \<Rightarrow> [] | Some d \<Rightarrow> d))"

definition truthy :: "jstring option \<Rightarrow> bool" where
  "truthy v = (case v of None \<Rightarrow> False | Some s \<Rightarrow> s \<noteq> [])"

text \<open>\<open>n.toString(16)\<close> and the percent escape \<open>'%' + ('00' + hex).slice(-2)\<close>.\<close>

definition hex_digit :: "nat \<Rightarrow> nat" where
  "hex_digit d = (if d < 10 then 48 + d else 87 + d)"

fun toString16 :: "nat \<Rightarrow> jstring" where
  "toString16 n = (if n < 16 then [hex_digit n] else toString16 (n div 16) @ [hex_digit (n mod 16)])"

definition slice_last :: "nat \<Rightarrow> jstring \<Rightarrow> jstring" where
  "slice_last k s = drop (length s - k) s"

definition percent_escape :: "nat \<Rightarrow> jstring" where
  "percent_escape c = js ''%'' @ slice_last 2 (js ''00'' @ toString16 c)"

definition url_safe_to_standard :: "jstring \<Rightarrow> jstring" where
  "url_safe_to_standard base64String =
     replace_all False (Atom (Ch 95)) (js ''/'')
       (replace_all False (Atom (Ch 45)) (js ''+'') base64String)"

definition decodeBase64 :: "platform \<Rightarrow> jstring \<Rightarrow> jstring" where
  "decodeBase64 P base64String =
     (let normalized = url_safe_to_standard base64String
      in case atob P normalized of
           None \<Rightarrow> []
         | Some binary \<Rightarrow>
             (case decodeURIComponent P (concat (map percent_escape binary)) of
                None \<Rightarrow> []
              | Some decoded \<Rightarrow> decoded))"

text \<open>The \<open>try\<close> block of \<open>decodeBase64\<close> throws: \<open>atob\<close> or \<open>decodeURIComponent\<close> does.\<close>

definition decode_throws :: "platform \<Rightarrow> jstring \<Rightarrow> bool" where
  "decode_throws P base64String =
     (case atob P (url_safe_to_standard base64String) of
        None \<Rightarrow> True
      | Some binary \<Rightarrow> decodeURIComponent P (concat (map percent_escape binary)) = None)"

definition re_tag :: regex where
  "re_tag = seqs [Atom (Ch 60), Star (Atom (NoneOf [62])), Atom (Ch 62)]"

definition re_ws :: regex where
  "re_ws = Plus (Atom Space)"

definition re_blank_lines :: regex where
  "re_blank_lines = seqs [Atom (Ch 10), Star (Atom Space), Atom (Ch 10)]"

definition stripHtml :: "platform \<Rightarrow> jstring \<Rightarrow> jstring" where
  "stripHtml P html =
     (case textContent P html of
        Some text \<Rightarrow>
          trim (replace_all False re_blank_lines [10] (replace_all False re_ws (js '' '') text))
      | None \<Rightarrow>
          trim (replace_all False re_ws (js '' '') (replace_all False re_tag [] html)))"

definition text_plain :: jstring where
  "text_plain = js ''text/plain''"

definition text_html :: jstring where
  "text_html = js ''text/html''"

text \<open>What the two first loops over \<open>payload.parts\<close> look for.\<close>

definition plain_part :: "RawMessage \<Rightarrow> bool" where
  "plain_part part = (mimeType part = Some text_plain \<and> body_data part \<noteq> [])"

definition html_part :: "RawMessage \<Rightarrow> bool" where
  "html_part part = (mimeType part = Some text_html \<and> body_data part \<noteq> [])"

text \<open>
  The single-part branch: \<open>Some\<close> of what it returns, \<open>None\<close> when control falls through
  to the multipart branch.
\<close>

definition single_part :: "platform \<Rightarrow> RawMessage \<Rightarrow> jstring option" where
  "single_part P payload =
     (if truthy (mimeType payload) \<and> body_data payload \<noteq> [] then
        (let content = decodeBase64 P (body_data payload)
         in if mimeType payload = Some text_plain then Some content
            else if mimeType payload = Some text_html then Some (stripHtml P content)
            else None)
      else None)"

text \<open>
  \<open>extractEmailBody\<close> on a payload that is present, and the third loop, which returns the
  first non-empty body extracted from a part.
\<close>

fun extractBody :: "platform \<Rightarrow> RawMessage \<Rightarrow> jstring"
  and nestedBody :: "platform \<Rightarrow> RawMessage list \<Rightarrow> jstring" where
  "extractBody P (RawMessage mt b ps) =
     (case single_part P (RawMessage mt b ps) of
        Some r \<Rightarrow> r
      | None \<Rightarrow>
          (case find plain_part ps of
             Some part \<Rightarrow> decodeBase64 P (body_data part)
           | None \<Rightarrow>
               (case find html_part ps of
                  Some part \<Rightarrow> stripHtml P (decodeBase64 P (body_data part))
                | None \<Rightarrow> nestedBody P ps)))"
| "nestedBody P [] = []"
| "nestedBody P (part # rest) =
     (let nested = extractBody P part in if nested \<noteq> [] then nested else nestedBody P rest)"

text \<open>\<open>extractEmailBody(payload)\<close>; \<open>None\<close> is a payload that is \<open>undefined\<close> or \<open>null\<close>.\<close>

definition extractEmailBody :: "platform \<Rightarrow> RawMessage option \<Rightarrow> jstring" where
  "extractEmailBody P payload = (case payload of None \<Rightarrow> [] | Some p \<Rightarrow> extractBody P p)"

text \<open>
  The notions the specification uses for the extractor: a textual leaf is a node of type
  \<open>text/plain\<close> or \<open>text/html\<close> that carries inline data; the first non-empty result of
  a sequence of results.
\<close>

fun has_textual :: "RawMessage \<Rightarrow> bool" where
  "has_textual (RawMessage mt b ps) =
     (((mt = Some text_plain \<or> mt = Some text_html) \<and> body_data (RawMessage mt b ps) \<noteq> [])
      \<or> (\<exists>q \<in> set ps. has_textual q))"

definition first_nonempty :: "jstring list \<Rightarrow> jstring" where
  "first_nonempty rs = (case find (\<lambda>r. r \<noteq> []) rs of None \<Rightarrow> [] | Some r \<Rightarrow> r)"

section \<open>ai.js: sanitising and classifying\<close>

subsection \<open>cleanEmail\<close>

text \<open>The six patterns of \<open>cleanEmail\<close>, in the order of its \<open>replace\<close> calls.\<close>

definition re_greeting :: regex where
  "re_greeting =
     seqs [Bol, alts [lit ''hi'', lit ''hello'', lit ''dear''], LazyStar (Atom Dot), Atom (Ch 10)]"

definition re_wrote :: regex where
  "re_wrote = seqs [lit ''on '', Star (Atom Dot), lit '' wrote:'', Star (Atom AnyChar)]"

definition re_original :: regex where
  "re_original = seqs [lit ''-----original message-----'', Star (Atom AnyChar)]"

definition re_sent :: regex where
  "re_sent = seqs [lit ''sent from my'', Star (Atom Dot), Eol]"

definition re_url :: regex where
  "re_url = seqs [lit ''http'', Opt (Atom (Ch 115)), lit ''://'', Plus (Atom NonSpace)]"

text \<open>\<open>s.slice(0, n)\<close> for a non-negative \<open>n\<close>.\<close>

definition slice0 :: "nat \<Rightarrow> jstring \<Rightarrow> jstring" where
  "slice0 n s = take n s"

definition cleanEmail :: "jstring \<Rightarrow> jstring" where
  "cleanEmail text =
     slice0 900
       (trim
         (replace_all False re_ws (js '' '')
           (replace_all False re_url []
             (replace_all True re_sent []
               (replace_all True re_original []
                 (replace_all True re_wrote []
                   (replace_all True re_greeting [] text)))))))"

subsection \<open>basicFallback and validateTag\<close>

record classification =
  summary :: jstring
  tag :: jstring

text \<open>The four patterns of \<open>basicFallback\<close>, all with the \<open>i\<close> flag.\<close>

definition rx_interview :: regex where
  "rx_interview = alts [lit ''interview'', lit ''hr'', lit ''recruiter'', lit ''hiring'']"

definition rx_event :: regex where
  "rx_event = alts [lit ''invite'', lit ''event'', lit ''meetup'', lit ''session'']"

definition rx_respond :: regex where
  "rx_respond = alts [lit ''let us know'', lit ''would you'', lit ''please reply'', lit ''respond'']"

definition rx_update :: regex where
  "rx_update = alts [lit ''update'', lit ''announcement'', lit ''newsletter'', lit ''inform'']"

definition basicFallback :: "platform \<Rightarrow> jstring \<Rightarrow> jstring \<Rightarrow> classification" where
  "basicFallback P subject text =
     (if test True rx_interview text then
        \<lparr>summary = js ''Interview-related email; reply to confirm next steps.'',
         tag = js ''Reply Required''\<rparr>
      else if test True rx_event text then
        \<lparr>summary = js ''Event invitation; reply if you want to attend.'',
         tag = js ''Reply Required''\<rparr>
      else if test True rx_respond text then
        \<lparr>summary = js ''This email asks for your response or confirmation.'',
         tag = js ''Reply Required''\<rparr>
      else if test True rx_update text then
        \<lparr>summary = js ''This email shares an update or announcement.'',
         tag = js ''FYI''\<rparr>
      else
        \<lparr>summary = (if subject \<noteq> []
                     then js ''This email is about '' @ toLowerCase P subject @ js ''.''
                     else js ''This email contains general information.''),
         tag = js ''No Reply Needed''\<rparr>)"

definition allowed :: "jstring list" where
  "allowed = [js ''Urgent'', js ''Reply Required'', js ''FYI'', js ''No Reply Needed'']"

text \<open>
  \<open>allowed.includes(tag)\<close> compares with SameValueZero: only a string equal to one of the
  four is included.
\<close>

definition validateTag :: "jsval \<Rightarrow> jstring" where
  "validateTag t =
     (case t of
        Val (JStr s) \<Rightarrow> if s \<in> set allowed then s else js ''FYI''
      | _ \<Rightarrow> js ''FYI'')"

subsection \<open>callAI\<close>

text \<open>
  Reading a property of a value: \<open>None\<close> is the TypeError that reading a property of
  \<open>undefined\<close> or \<open>null\<close> throws; a property that is not there reads as \<open>undefined\<close>.
  \<open>get_field\<close> is used for the names \<open>choices\<close>, \<open>message\<close>, \<open>content\<close>, \<open>summary\<close> and
  \<open>tag\<close>, which no built-in prototype defines, so that only an object parsed from JSON
  can have them; \<open>get_index0\<close> is the read of \<open>[0]\<close>.
\<close>

fun get_field :: "jsval \<Rightarrow> jstring \<Rightarrow> jsval option" where
  "get_field Undefined k = None"
| "get_field (Val JNull) k = None"
| "get_field (Val (JObj kvs)) k =
     Some (case map_of kvs k of None \<Rightarrow> Undefined | Some v \<Rightarrow> Val v)"
| "get_field (Val v) k = Some Undefined"

fun get_index0 :: "jsval \<Rightarrow> jsval option" where
  "get_index0 Undefined = None"
| "get_index0 (Val JNull) = None"
| "get_index0 (Val (JArr xs)) = Some (case xs of [] \<Rightarrow> Undefined | x # rest \<Rightarrow> Val x)"
| "get_index0 (Val (JStr s)) = Some (case s of [] \<Rightarrow> Undefined | c # rest \<Rightarrow> Val (JStr [c]))"
| "get_index0 (Val (JObj kvs)) =
     Some (case map_of kvs (js ''0'') of None \<Rightarrow> Undefined | Some v \<Rightarrow> Val v)"
| "get_index0 (Val v) = Some Undefined"

text \<open>
  \<open>JSON.parse\<close> converts its argument to a string first: \<open>ToString\<close> of a value (an array
  joins its elements with commas, \<open>null\<close> elements as the empty string).
\<close>

fun join :: "jstring \<Rightarrow> jstring list \<Rightarrow> jstring" where
  "join sep [] = []"
| "join sep [x] = x"
| "join sep (x # xs) = x @ sep @ join sep xs"

fun ToString_json :: "json \<Rightarrow> jstring" where
  "ToString_json JNull = js ''null''"
| "ToString_json (JBool b) = (if b then js ''true'' else js ''false'')"
| "ToString_json (JNum r) = r"
| "ToString_json (JStr s) = s"
| "ToString_json (JArr xs) =
     join (js '','') (map (\<lambda>x. if x = JNull then [] else ToString_json x) xs)"
| "ToString_json (JObj kvs) = js ''[object Object]''"

definition ToString :: "jsval \<Rightarrow> jstring" where
  "ToString v = (case v of Undefined \<Rightarrow> js ''undefined'' | Val j \<Rightarrow> ToString_json j)"

text \<open>
  What \<open>fetch\<close> gives: \<open>None\<close> when the promise rejects (the transport failed), a response
  otherwise, whatever its status. \<open>json_body\<close> is what \<open>res.json()\<close> resolves with,
  \<open>None\<close> when it rejects because the body is not JSON.
\<close>

record http_response =
  status :: nat
  json_body :: "json option"

text \<open>\<open>parsed.summary.trim()\<close> throws unless \<open>parsed.summary\<close> is a string.\<close>

definition string_trim :: "jsval \<Rightarrow> jstring option" where
  "string_trim v = (case v of Val (JStr s) \<Rightarrow> Some (trim s) | _ \<Rightarrow> None)"

text \<open>The \<open>try\<close> block of \<open>callAI\<close>: \<open>None\<close> when it throws.\<close>

definition callAI_try :: "platform \<Rightarrow> http_response option \<Rightarrow> classification option" where
  "callAI_try P fetched =
     do {
       res \<leftarrow> fetched;
       data \<leftarrow> json_body res;
       choices \<leftarrow> get_field (Val data) (js ''choices'');
       choice \<leftarrow> get_index0 choices;
       message \<leftarrow> get_field choice (js ''message'');
       content \<leftarrow> get_field message (js ''content'');
       parsed \<leftarrow> JSON_parse P (ToString content);
       parsed_summary \<leftarrow> get_field (Val parsed) (js ''summary'');
       trimmed \<leftarrow> string_trim parsed_summary;
       parsed_tag \<leftarrow> get_field (Val parsed) (js ''tag'');
       Some \<lparr>summary = trimmed, tag = validateTag parsed_tag\<rparr>
     }"

definition callAI :: "platform \<Rightarrow> http_response option \<Rightarrow> jstring \<Rightarrow> jstring \<Rightarrow> classification" where
  "callAI P fetched text apiKey =
     (case callAI_try P fetched of
        Some result \<Rightarrow> result
      | None \<Rightarrow> basicFallback P [] text)"

subsection \<open>addContextHint\<close>

text \<open>
  The cascade of \<open>addContextHint\<close> as a table, one row for each \<open>if\<close> in source order:
  the \<open>i\<close> flag of the pattern, the pattern, and the sentence returned.
\<close>

definition sign_in :: regex where
  "sign_in = seqs [lit ''sign'', Opt (Atom (OneOf [45, 32])), lit ''in'']"

definition context_rules :: "(bool \<times> regex \<times> string) list" where
  "context_rules =
   [(True, alts [lit ''one time password'', lit ''otp'', lit ''verification code'', lit ''use this code''],
     ''One-time password received for account verification.''),
    (True, alts [Seq (lit ''new '') sign_in, lit ''signed in'', lit ''login detected'', lit ''new device''],
     ''New sign-in detected on your account; review if this was you.''),
    (True, alts [Seq (lit ''google '') sign_in, Seq sign_in (lit '' to google account'')],
     ''Google account sign-in detected; review activity if unexpected.''),
    (True, alts [lit ''security alert'', lit ''unusual activity'', lit ''suspicious activity''],
     ''Security alert on your account; review immediately.''),
    (True, alts [lit ''password reset'', lit ''reset your password'', lit ''change your password''],
     ''Password reset requested; take action if this was you.''),
    (True, alts [lit ''verify your email'', lit ''email verification'', lit ''confirm your email''],
     ''Email verification required to complete account setup.''),
    (True, alts [lit ''access request'', lit ''permission request'', lit ''requested access'',
                 lit ''shared with you''],
     ''Access request received; review and approve if appropriate.''),
    (True, alts [lit ''new device'', lit ''new browser'', lit ''new location''],
     ''New device or location used to access your account.''),
    (True, alts [lit ''interview'', lit ''hr'', lit ''recruiter'', lit ''hiring'', lit ''selection'',
                 lit ''availability'', lit ''next round''],
     ''Interview-related email; reply to confirm availability.''),
    (True, alts [lit ''offer letter'', lit ''job offer'', lit ''we are pleased to offer''],
     ''Job offer received; review details and respond.''),
    (True, alts [lit ''regret to inform'', lit ''not selected'', lit ''application rejected''],
     ''Application update received; no response required.''),
    (True, alts [lit ''application status'', lit ''application update'', lit ''under review''],
     ''Update on your job application status.''),
    (True, alts [lit ''meeting request'', lit ''schedule a call'', lit ''calendar invite''],
     ''Meeting request received; reply to schedule or confirm.''),
    (True, alts [lit ''event'', lit ''meetup'', lit ''webinar'', lit ''conference'', lit ''session'',
                 lit ''join us''],
     ''Event invitation received; reply if you want to attend.''),
    (True, alts [lit ''rescheduled'', lit ''new time'', lit ''updated schedule''],
     ''Meeting or event has been rescheduled; review updated details.''),
    (True, alts [lit ''cancelled'', lit ''canceled''],
     ''Meeting or event has been cancelled.''),
    (True, alts [lit ''payment due'', lit ''outstanding amount'', lit ''due by'', lit ''overdue''],
     ''Payment due; review and complete before the deadline.''),
    (True, alts [lit ''invoice'', lit ''receipt'', lit ''payment confirmation'',
                 lit ''transaction successful''],
     ''Payment or invoice details received.''),
    (True, alts [lit ''refund'', lit ''credited back'', lit ''refund initiated''],
     ''Refund update received; check transaction details.''),
    (True, alts [lit ''subscription renewal'', lit ''renewal notice'', lit ''renews on''],
     ''Subscription renewal notice received.''),
    (True, alts [lit ''subscription cancelled'', lit ''cancellation confirmed''],
     ''Subscription cancellation confirmed.''),
    (True, alts [lit ''plan upgraded'', lit ''plan changed'', lit ''billing plan''],
     ''Your service plan has been updated.''),
    (True, alts [lit ''special offer'', lit ''limited time offer'', lit ''discount'', lit ''sale'',
                 lit ''deal''],
     ''Promotional offer received; check details if interested.''),
    (True, alts [lit ''introducing'', lit ''new launch'', lit ''we are excited to announce''],
     ''Promotional announcement about a new product or feature.''),
    (True, alts [lit ''newsletter'', lit ''weekly digest'', lit ''monthly update''],
     ''Newsletter received; informational update.''),
    (True, alts [lit ''policy update'', lit ''terms updated'', lit ''privacy policy''],
     ''Policy update announced; review changes.''),
    (True, alts [lit ''product update'', lit ''new feature'', lit ''feature release''],
     ''Product update announced with new changes.''),
    (True, alts [lit ''thank you'', lit ''thanks for'', lit ''appreciate''],
     ''Thank-you or appreciation message received.''),
    (True, alts [lit ''congratulations'', lit ''congrats''],
     ''Congratulations message received.''),
    (False, alts [lit ''interview'', lit ''hr'', lit ''recruiter'', lit ''hiring'', lit ''selection'',
                  lit ''availability'', lit ''next round''],
     ''Interview-related email; reply to confirm availability.''),
    (False, alts [lit ''offer letter'', lit ''job offer'', lit ''we are pleased to offer''],
     ''Job offer received; review details and respond.''),
    (False, alts [lit ''regret to inform'', lit ''not selected'', lit ''application rejected''],
     ''Application update received; no response required.''),
    (False, alts [lit ''application status'', lit ''application update'', lit ''under review''],
     ''Update on your job application status.''),
    (False, alts [lit ''meeting request'', lit ''schedule a call'', lit ''calendar invite''],
     ''Meeting request received; reply to schedule or confirm.''),
    (False, alts [lit ''event'', lit ''meetup'', lit ''webinar'', lit ''conference'', lit ''session'',
                  lit ''join us''],
     ''Event invitation received; reply if you want to attend.''),
    (False, alts [lit ''rescheduled'', lit ''new time'', lit ''updated schedule''],
     ''Meeting or event has been rescheduled; review updated details.''),
    (False, alts [lit ''cancelled'', lit ''canceled''],
     ''Meeting or event has been cancelled.''),
    (False, alts [lit ''payment due'', lit ''outstanding amount'', lit ''due by''],
     ''Payment due; review and complete before the deadline.''),
    (False, alts [lit ''invoice'', lit ''receipt'', lit ''payment confirmation''],
     ''Payment or invoice details received.''),
    (False, alts [lit ''refund'', lit ''credited back''],
     ''Refund update received; check transaction details.''),
    (False, alts [lit ''security alert'', lit ''unusual activity'', lit ''login attempt''],
     ''Security alert detected; review immediately.''),
    (False, alts [lit ''verify your email'', lit ''email verification'', lit ''confirm your email''],
     ''Email verification required; confirm to continue.''),
    (False, alts [lit ''password reset'', lit ''reset your password''],
     ''Password reset requested; take action if this was you.''),
    (False, alts [lit ''subscription renewal'', lit ''renewal notice''],
     ''Subscription renewal notice received.''),
    (False, alts [lit ''subscription cancelled'', lit ''cancellation confirmed''],
     ''Subscription cancellation confirmed.''),
    (False, alts [lit ''plan upgraded'', lit ''plan changed''],
     ''Your service plan has been updated.''),
    (False, alts [lit ''newsletter'', lit ''monthly update'', lit ''weekly digest''],
     ''Newsletter received; informational update.''),
    (False, alts [lit ''policy update'', lit ''terms updated'', lit ''privacy policy''],
     ''Policy update announced; review changes.''),
    (False, alts [lit ''product update'', lit ''new feature'', lit ''feature release''],
     ''Product update announced with new changes.''),
    (False, alts [lit ''thank you'', lit ''thanks for'', lit ''appreciate''],
     ''Thank-you or appreciation message received.''),
    (False, alts [lit ''congratulations'', lit ''congrats''],
     ''Congratulations message received.'')]"

text \<open>The first row whose pattern matches, as the chain of \<open>if\<close>s finds it.\<close>

definition first_hint :: "jstring \<Rightarrow> (bool \<times> regex \<times> string) option" where
  "first_hint text = find (\<lambda>(i, r, sentence). test i r text) context_rules"

definition addContextHint ::
  "platform \<Rightarrow> jstring \<Rightarrow> jstring \<Rightarrow> jstring \<Rightarrow> jstring \<Rightarrow> jstring" where
  "addContextHint P summary' subject body' tag' =
     (let text = toLowerCase P (subject @ js '' '' @ body')
      in case first_hint text of
           Some (i, r, sentence) \<Rightarrow> js sentence
         | None \<Rightarrow> summary')"

subsection \<open>processEmail\<close>

record settings =
  aiApiKey :: "jstring option"

text \<open>
  \<open>processEmail(subject, body)\<close>. The settings are those \<open>loadSettings\<close> returns;
  \<open>fetched\<close> is what the one \<open>fetch\<close> of \<open>callAI\<close> gives if it is made.
\<close>

definition processEmail ::
  "platform \<Rightarrow> settings \<Rightarrow> http_response option \<Rightarrow> jstring \<Rightarrow> jstring \<Rightarrow> classification" where
  "processEmail P st fetched subject body' =
     (let cleaned = cleanEmail body'
      in if \<not> truthy (aiApiKey st) \<or> cleaned = [] then basicFallback P subject cleaned
         else
           (let aiResult = callAI P fetched cleaned (case aiApiKey st of Some k \<Rightarrow> k | None \<Rightarrow> [])
            in if summary aiResult = [] \<or> length (summary aiResult) < 10
               then basicFallback P subject cleaned
               else \<lparr>summary = addContextHint P (summary aiResult) subject cleaned (tag aiResult),
                     tag = tag aiResult\<rparr>))"

subsection \<open>Words\<close>

text \<open>
  The whitespace-delimited tokens of a text, the unit in which the specification counts:
  the non-empty maximal runs of code units that are not white space.
\<close>

fun tokens_from :: "jstring \<Rightarrow> jstring \<Rightarrow> jstring list" where
  "tokens_from cur [] = (if cur = [] then [] else [cur])"
| "tokens_from cur (c # cs) =
     (if is_space c then (if cur = [] then tokens_from [] cs else cur # tokens_from [] cs)
      else tokens_from (cur @ [c]) cs)"

definition tokens :: "jstring \<Rightarrow> jstring list" where
  "tokens s = tokens_from [] s"

definition word_count :: "jstring \<Rightarrow> nat" where
  "word_count s = length (tokens s)"

subsection \<open>Shapes of text\<close>

text \<open>
  A text is collapsed when its only white space is single spaces: the shape that the
  \<open>\s+\<close> stage of \<open>cleanEmail\<close> produces. A text starts with a URL when it starts with
  \<open>http://\<close> or \<open>https://\<close> and one more code unit that is not white space: the shape
  that the URL pattern matches.
\<close>

fun collapsed :: "jstring \<Rightarrow> bool" where
  "collapsed [] = True"
| "collapsed [c] = (if is_space c then c = 32 else True)"
| "collapsed (c # d # r) = ((if is_space c then c = 32 \<and> \<not> is_space d else True) \<and> collapsed (d # r))"

definition url_run :: "jstring \<Rightarrow> bool" where
  "url_run u =
     ((take 7 u = js ''http://'' \<and> 7 < length u) \<or> (take 8 u = js ''https://'' \<and> 8 < length u))"

definition starts_with_url :: "jstring \<Rightarrow> bool" where
  "starts_with_url s = url_run (takeWhile (\<lambda>c. \<not> is_space c) s)"

text \<open>A text of \<open>n + 1\<close> one-letter words.\<close>

definition many_words :: "nat \<Rightarrow> jstring" where
  "many_words n = concat (replicate n (js ''a '')) @ js ''a''"

section \<open>background.js: duplicate suppression (src/unnamed/part\_001)\<close>

subsection \<open>The JavaScript Set of message identifiers\<close>

text \<open>
  A JavaScript \<open>Set\<close> keeps its elements in insertion order without duplicates;
  \<open>Array.from(set)\<close> lists them in that order and \<open>new Set(array)\<close> inserts the elements of
  the array one after the other. The set is modelled as the list of its elements in
  insertion order.
\<close>

type_synonym 'a jsset = "'a list"

definition Set_has :: "'a jsset \<Rightarrow> 'a \<Rightarrow> bool" where
  "Set_has s x = (x \<in> set s)"

definition Set_add :: "'a jsset \<Rightarrow> 'a \<Rightarrow> 'a jsset" where
  "Set_add s x = (if x \<in> set s then s else s @ [x])"

definition Set_clear :: "'a jsset \<Rightarrow> 'a jsset" where
  "Set_clear s = []"

definition new_Set :: "'a list \<Rightarrow> 'a jsset" where
  "new_Set arr = foldl Set_add [] arr"

definition Array_from :: "'a jsset \<Rightarrow> 'a list" where
  "Array_from s = s"

subsection \<open>Persisted state and the notifier object\<close>

text \<open>
  \<open>chrome.storage.local\<close> holds the two entries the notifier reads: the array under
  \<open>processed_messages\<close> and the settings blob, of which only \<open>pollingInterval\<close> is read.
  \<open>None\<close> is an entry that was never written. The stored polling interval is the result
  of \<open>Number(storedSettings.pollingInterval)\<close>: \<open>None\<close> when that is not a finite number,
  an integer number of seconds otherwise.
\<close>

record storage =
  processed_messages :: "jstring list option"
  stored_pollingInterval :: "int option"

record GmailNotifier =
  isRunning :: bool
  authToken :: "jstring option"
  processedMessages :: "jstring jsset"
  pollingInterval :: int

text \<open>The constructor: \<open>new GmailNotifier()\<close>.\<close>

definition GmailNotifier_new :: GmailNotifier where
  "GmailNotifier_new =
     \<lparr>isRunning = False, authToken = None, processedMessages = new_Set [], pollingInterval = 60\<rparr>"

text \<open>
  The running extension is the notifier object together with the store. Each operation
  takes both and returns both.
\<close>

type_synonym world = "GmailNotifier \<times> storage"

definition loadStoredData :: "world \<Rightarrow> world" where
  "loadStoredData w =
     (let (n, st) = w;
          arr = (case processed_messages st of None \<Rightarrow> [] | Some a \<Rightarrow> a);
          interval = (case stored_pollingInterval st of
                        None \<Rightarrow> 60
                      | Some i \<Rightarrow> if i < 60 then 60 else i)
      in (n\<lparr>processedMessages := new_Set arr, pollingInterval := interval\<rparr>, st))"

definition markAsProcessed :: "jstring \<Rightarrow> world \<Rightarrow> world" where
  "markAsProcessed messageId w =
     (let (n, st) = w;
          n' = n\<lparr>processedMessages := Set_add (processedMessages n) messageId\<rparr>
      in (n', st\<lparr>processed_messages := Some (Array_from (processedMessages n'))\<rparr>))"

text \<open>The \<open>clearProcessed\<close> branch of the message listener.\<close>

definition clearProcessed :: "world \<Rightarrow> world" where
  "clearProcessed w =
     (let (n, st) = w
      in (n\<lparr>processedMessages := Set_clear (processedMessages n)\<rparr>,
          st\<lparr>processed_messages := Some []\<rparr>))"

text \<open>The membership test of \<open>checkForNewEmails\<close>: \<open>this.processedMessages.has(email.id)\<close>.\<close>

definition has :: "world \<Rightarrow> jstring \<Rightarrow> bool" where
  "has w messageId = Set_has (processedMessages (fst w)) messageId"

text \<open>
  A reload: the service worker restarts, a fresh notifier object is constructed and
  \<open>initialize\<close> loads the store, which is all that survives.
\<close>

definition reload :: "world \<Rightarrow> world" where
  "reload w = loadStoredData (GmailNotifier_new, snd w)"

section \<open>A platform to run the model on\<close>

text \<open>
  An instance of the platform for running the model on concrete messages: \<open>atob\<close> is
  the forgiving base64 decoder of the HTML standard, \<open>decodeURIComponent\<close> decodes the
  fully escaped strings that \<open>decodeBase64\<close> passes to it (strict UTF-8, to UTF-16 code
  units), \<open>document\<close> is not defined, as in the extension's service worker, and
  \<open>toLowerCase\<close> maps the ASCII letters, which is what the built-in does on ASCII text.
\<close>

definition b64_value :: "nat \<Rightarrow> nat option" where
  "b64_value c =
     (if 65 \<le> c \<and> c \<le> 90 then Some (c - 65)
      else if 97 \<le> c \<and> c \<le> 122 then Some (c - 71)
      else if 48 \<le> c \<and> c \<le> 57 then Some (c + 4)
      else if c = 43 then Some 62
      else if c = 47 then Some 63
      else None)"

fun b64_sextets :: "jstring \<Rightarrow> nat list option" where
  "b64_sextets [] = Some []"
| "b64_sextets (c # cs) =
     (case b64_value c of None \<Rightarrow> None
      | Some v \<Rightarrow> (case b64_sextets cs of None \<Rightarrow> None | Some vs \<Rightarrow> Some (v # vs)))"

fun b64_bytes :: "nat list \<Rightarrow> nat list" where
  "b64_bytes (a # b # c # d # rest) =
     (a * 4 + b div 16) # ((b mod 16) * 16 + c div 4) # ((c mod 4) * 64 + d) # b64_bytes rest"
| "b64_bytes [a, b, c] = [a * 4 + b div 16, (b mod 16) * 16 + c div 4]"
| "b64_bytes [a, b] = [a * 4 + b div 16]"
| "b64_bytes _ = []"

definition strip_padding :: "jstring \<Rightarrow> jstring" where
  "strip_padding s =
     (if length s mod 4 = 0 then
        (case rev s of
           x # y # r \<Rightarrow> if x = 61 \<and> y = 61 then rev r else if x = 61 then rev (y # r) else s
         | _ \<Rightarrow> s)
      else s)"

definition forgiving_base64 :: "jstring \<Rightarrow> jstring option" where
  "forgiving_base64 s =
     (let d = strip_padding (filter (\<lambda>c. \<not> (c = 9 \<or> c = 10 \<or> c = 12 \<or> c = 13 \<or> c = 32)) s)
      in if length d mod 4 = 1 then None
         else (case b64_sextets d of None \<Rightarrow> None | Some vs \<Rightarrow> Some (b64_bytes vs)))"

definition hex_value :: "nat \<Rightarrow> nat option" where
  "hex_value c =
     (if 48 \<le> c \<and> c \<le> 57 then Some (c - 48)
      else if 97 \<le> c \<and> c \<le> 102 then Some (c - 87)
      else if 65 \<le> c \<and> c \<le> 70 then Some (c - 55)
      else None)"

fun unescape_bytes :: "jstring \<Rightarrow> nat list option" where
  "unescape_bytes [] = Some []"
| "unescape_bytes (p # h # l # rest) =
     (if p = 37 then
        (case (hex_value h, hex_value l, unescape_bytes rest) of
           (Some a, Some b, Some bs) \<Rightarrow> Some ((a * 16 + b) # bs)
         | _ \<Rightarrow> None)
      else None)"
| "unescape_bytes _ = None"

definition continuation_byte :: "nat \<Rightarrow> bool" where
  "continuation_byte b = (128 \<le> b \<and> b \<le> 191)"

fun utf8_decode :: "nat list \<Rightarrow> jstring option" where
  "utf8_decode [] = Some []"
| "utf8_decode (a # bs) =
     (if a < 128 then map_option ((#) a) (utf8_decode bs)
      else if 194 \<le> a \<and> a \<le> 223 then
        (case bs of
           b # r \<Rightarrow>
             if continuation_byte b
             then map_option ((#) ((a - 192) * 64 + (b - 128))) (utf8_decode r)
             else None
         | _ \<Rightarrow> None)
      else if 224 \<le> a \<and> a \<le> 239 then
        (case bs of
           b # c # r \<Rightarrow>
             if continuation_byte b \<and> continuation_byte c
                \<and> (if a = 224 then 160 \<le> b else True) \<and> (if a = 237 then b \<le> 159 else True)
             then map_option ((#) ((a - 224) * 4096 + (b - 128) * 64 + (c - 128))) (utf8_decode r)
             else None
         | _ \<Rightarrow> None)
      else if 240 \<le> a \<and> a \<le> 244 then
        (case bs of
           b # c # d # r \<Rightarrow>
             if continuation_byte b \<and> continuation_byte c \<and> continuation_byte d
                \<and> (if a = 240 then 144 \<le> b else True) \<and> (if a = 244 then b \<le> 143 else True)
             then (let cp = (a - 240) * 262144 + (b - 128) * 4096 + (c - 128) * 64 + (d - 128)
                            - 65536
                   in map_option (\<lambda>t. (55296 + cp div 1024) # (56320 + cp mod 1024) # t)
                        (utf8_decode r))
             else None
         | _ \<Rightarrow> None)
      else None)"

text \<open>
  \<open>JSON.parse\<close> of the instance is given on the documents that the examples below use:
  each row is a JSON text and the value it denotes.
\<close>

definition known_documents :: "(jstring \<times> json) list" where
  \<open>known_documents =
     [(js ''{"summary": 1}'', JObj [(js ''summary'', JNum (js ''1''))])]\<close>

definition browser :: platform where
  "browser =
     \<lparr>atob = forgiving_base64,
      decodeURIComponent =
        (\<lambda>s. case unescape_bytes s of None \<Rightarrow> None | Some bs \<Rightarrow> utf8_decode bs),
      textContent = (\<lambda>html. None),
      toLowerCase = map (\<lambda>c. if 65 \<le> c \<and> c \<le> 90 then c + 32 else c),
      JSON_parse = map_of known_documents\<rparr>"

text \<open>
  The message of the specification's example: a \<open>multipart/alternative\<close> whose HTML part
  \<open><b>hi</b>\<close> comes before its plain part \<open>Hello world\<close>, both in URL-safe base64.
\<close>

definition example_html_part :: RawMessage where
  "example_html_part =
     RawMessage (Some text_html) (Some (MessagePartBody (Some (js ''PGI-aGk8L2I-'')))) []"

definition example_plain_part :: RawMessage where
  "example_plain_part =
     RawMessage (Some text_plain) (Some (MessagePartBody (Some (js ''SGVsbG8gd29ybGQ'')))) []"

definition example_message :: RawMessage where
  "example_message =
     RawMessage (Some (js ''multipart/alternative'')) None [example_html_part, example_plain_part]"

text \<open>A part of type \<open>application/pdf\<close>, and a plain part whose data is not base64.\<close>

definition example_attachment :: RawMessage where
  "example_attachment =
     RawMessage (Some (js ''application/pdf'')) (Some (MessagePartBody (Some (js ''JVBERi0'')))) []"

definition example_undecodable :: RawMessage where
  "example_undecodable =
     RawMessage (Some text_plain) (Some (MessagePartBody (Some (js ''SGVsb'')))) []"

section \<open>Evaluation\<close>

text \<open>
  The equations of the functions that recurse under a condition are unfolded only where
  asked for. The collections below are the definitions a concrete run unfolds.
\<close>

declare search.simps [simp del] replace_from.simps [simp del] toString16.simps [simp del]
  ends.simps(8,9) [simp del]

lemmas eval_regex =
  js_def replace_all_def replace_from.simps search.simps ends.simps(8,9) test_def exec_at_def
  same_char_def canonicalize_def is_space_def is_line_terminator_def Plus_def trim_def

lemmas eval_browser =
  browser_def forgiving_base64_def strip_padding_def b64_value_def hex_value_def
  continuation_byte_def percent_escape_def slice_last_def hex_digit_def toString16.simps
  url_safe_to_standard_def decodeBase64_def decode_throws_def Let_def

lemmas eval_clean =
  cleanEmail_def slice0_def re_greeting_def re_wrote_def re_original_def re_sent_def re_url_def
  re_ws_def

lemmas eval_fallback =
  basicFallback_def rx_interview_def rx_event_def rx_respond_def rx_update_def

section \<open>Properties of the extractor\<close>

lemma nestedBody_first_nonempty:
  "nestedBody P ps = first_nonempty (map (extractBody P) ps)"
  by (induction ps) (auto simp: first_nonempty_def Let_def)

lemma find_same_data:
  assumes "q \<in> set ps" "Q q" "\<forall>q' \<in> set ps. Q q' \<longrightarrow> f q' = f q"
  shows "\<exists>q'. find Q ps = Some q' \<and> f q' = f q"
proof -
  from assms(1,2) obtain q' where f: "find Q ps = Some q'"
    by (cases "find Q ps") (auto simp: find_None_iff)
  then have "q' \<in> set ps" "Q q'"
    by (auto simp: find_Some_iff)
  with assms(3) f show ?thesis by auto
qed

lemma single_part_multipart:
  "mt \<noteq> Some text_plain \<Longrightarrow> mt \<noteq> Some text_html \<Longrightarrow> single_part P (RawMessage mt b ps) = None"
  by (simp add: single_part_def Let_def)

text \<open>
  Claim C1. For a multipart node (one whose single-part branch does not return, as is the
  case whenever its type is neither \<open>text/plain\<close> nor \<open>text/html\<close>):
  if some child is a \<open>text/plain\<close> part with data, extraction returns the decoded data of
  that part, wherever it stands among its siblings (stated for the case the claim speaks
  of, that the plain parts at that level agree on their data);
  if no child is such a part and some child is a \<open>text/html\<close> part with data, that part
  is decoded, stripped and returned;
  if no child is either, the children are extracted in order and the first non-empty
  result, or the empty string, is returned.
\<close>

theorem extract_priority:
  assumes "single_part P (RawMessage mt b ps) = None"
  shows "(\<forall>q \<in> set ps. plain_part q \<and> (\<forall>q' \<in> set ps. plain_part q' \<longrightarrow> body_data q' = body_data q)
            \<longrightarrow> extractBody P (RawMessage mt b ps) = decodeBase64 P (body_data q))
       \<and> (\<forall>q \<in> set ps. (\<forall>q' \<in> set ps. \<not> plain_part q') \<and> html_part q
              \<and> (\<forall>q' \<in> set ps. html_part q' \<longrightarrow> body_data q' = body_data q)
            \<longrightarrow> extractBody P (RawMessage mt b ps) = stripHtml P (decodeBase64 P (body_data q)))
       \<and> ((\<forall>q' \<in> set ps. \<not> plain_part q' \<and> \<not> html_part q')
            \<longrightarrow> extractBody P (RawMessage mt b ps) = first_nonempty (map (extractBody P) ps))"
proof (intro conjI ballI impI)
  fix q assume "q \<in> set ps"
    and "plain_part q \<and> (\<forall>q' \<in> set ps. plain_part q' \<longrightarrow> body_data q' = body_data q)"
  then obtain q' where "find plain_part ps = Some q'" "body_data q' = body_data q"
    using find_same_data [of q ps plain_part body_data] by blast
  with assms show "extractBody P (RawMessage mt b ps) = decodeBase64 P (body_data q)"
    by simp
next
  fix q assume "q \<in> set ps"
    and h: "(\<forall>q' \<in> set ps. \<not> plain_part q') \<and> html_part q
              \<and> (\<forall>q' \<in> set ps. html_part q' \<longrightarrow> body_data q' = body_data q)"
  then obtain q' where "find html_part ps = Some q'" "body_data q' = body_data q"
    using find_same_data [of q ps html_part body_data] by blast
  moreover from h have "find plain_part ps = None"
    by (simp add: find_None_iff)
  ultimately show "extractBody P (RawMessage mt b ps) = stripHtml P (decodeBase64 P (body_data q))"
    using assms by simp
next
  assume "\<forall>q' \<in> set ps. \<not> plain_part q' \<and> \<not> html_part q'"
  then have "find plain_part ps = None" "find html_part ps = None"
    by (simp_all add: find_None_iff)
  with assms show "extractBody P (RawMessage mt b ps) = first_nonempty (map (extractBody P) ps)"
    by (simp add: nestedBody_first_nonempty)
qed

lemma decode_example_plain: "decodeBase64 browser (js ''SGVsbG8gd29ybGQ'') = js ''Hello world''"
  by (simp add: eval_regex eval_browser)

lemma decode_example_html: "decodeBase64 browser (js ''PGI-aGk8L2I-'') = js ''<b>hi</b>''"
  by (simp add: eval_regex eval_browser)

lemma strip_example_html: "stripHtml browser (js ''<b>hi</b>'') = js ''hi''"
  by (simp add: stripHtml_def re_tag_def re_ws_def eval_regex browser_def)

theorem extract_priority_witness:
  "single_part browser example_message = None
   \<and> extractBody browser example_message = js ''Hello world''
   \<and> extractBody browser
        (RawMessage (Some (js ''multipart/alternative'')) None [example_plain_part, example_html_part])
      = js ''Hello world''
   \<and> extractBody browser
        (RawMessage (Some (js ''multipart/alternative'')) None [example_attachment, example_html_part])
      = js ''hi''
   \<and> extractBody browser
        (RawMessage (Some (js ''multipart/mixed'')) None [example_attachment, example_message])
      = js ''Hello world''"
proof -
  let ?alt = "Some (js ''multipart/alternative'')"
  have mt: "?alt \<noteq> Some text_plain" "?alt \<noteq> Some text_html"
    "Some (js ''multipart/mixed'') \<noteq> Some text_plain" "Some (js ''multipart/mixed'') \<noteq> Some text_html"
    by (simp_all add: text_plain_def text_html_def js_def)
  have parts: "plain_part example_plain_part" "\<not> html_part example_plain_part"
    "html_part example_html_part" "\<not> plain_part example_html_part"
    "\<not> plain_part example_attachment" "\<not> html_part example_attachment"
    "\<not> plain_part example_message" "\<not> html_part example_message"
    by (simp_all add: plain_part_def html_part_def example_plain_part_def example_html_part_def
        example_attachment_def example_message_def body_data_def text_plain_def text_html_def js_def)
  have data: "body_data example_plain_part = js ''SGVsbG8gd29ybGQ''"
    "body_data example_html_part = js ''PGI-aGk8L2I-''"
    by (simp_all add: example_plain_part_def example_html_part_def body_data_def)
  have sp: "single_part browser (RawMessage ?alt None ps) = None" for ps
    by (rule single_part_multipart) (rule mt)+
  have sp': "single_part browser (RawMessage (Some (js ''multipart/mixed'')) None ps) = None" for ps
    by (rule single_part_multipart) (rule mt)+
  have e1: "extractBody browser example_message = js ''Hello world''"
    using extract_priority [OF sp, of "[example_html_part, example_plain_part]"] parts data
    by (simp add: example_message_def decode_example_plain)
  have e2: "extractBody browser (RawMessage ?alt None [example_plain_part, example_html_part])
            = js ''Hello world''"
    using extract_priority [OF sp, of "[example_plain_part, example_html_part]"] parts data
    by (simp add: decode_example_plain)
  have e3: "extractBody browser (RawMessage ?alt None [example_attachment, example_html_part])
            = js ''hi''"
    using extract_priority [OF sp, of "[example_attachment, example_html_part]"] parts data
    by (simp add: decode_example_html strip_example_html)
  have att: "extractBody browser example_attachment = []"
    by (simp add: example_attachment_def single_part_def truthy_def body_data_def
        text_plain_def text_html_def js_def)
  have e4: "extractBody browser (RawMessage (Some (js ''multipart/mixed'')) None
              [example_attachment, example_message]) = js ''Hello world''"
    using extract_priority [OF sp', of "[example_attachment, example_message]"] parts att e1
    by (simp add: first_nonempty_def js_def)
  from sp e1 e2 e3 e4 show ?thesis by (simp add: example_message_def)
qed

lemma not_textual_not_part: "\<not> has_textual q \<Longrightarrow> \<not> plain_part q \<and> \<not> html_part q"
  by (cases q) (auto simp: plain_part_def html_part_def)

lemma no_textual_extractBody: "\<not> has_textual p \<Longrightarrow> extractBody P p = []"
  and no_textual_nestedBody: "(\<forall>q \<in> set ps. \<not> has_textual q) \<Longrightarrow> nestedBody P ps = []"
proof (induction P p and P ps rule: extractBody_nestedBody.induct)
  case (1 P mt b ps)
  from "1.prems" have sp: "single_part P (RawMessage mt b ps) = None"
    by (auto simp: single_part_def Let_def)
  from "1.prems" have all: "\<forall>q \<in> set ps. \<not> has_textual q" by simp
  then have np: "find plain_part ps = None" "find html_part ps = None"
    using not_textual_not_part by (auto simp: find_None_iff)
  from "1.IH" [OF sp np all] have "nestedBody P ps = []" .
  with sp np show ?case by simp
next
  case (2 P)
  show ?case by simp
next
  case (3 P part rest)
  then show ?case by (simp add: Let_def)
qed

lemma decode_throws_empty: "decode_throws P d \<Longrightarrow> decodeBase64 P d = []"
  by (auto simp: decode_throws_def decodeBase64_def Let_def split: option.splits)

lemma undecodable_plain_node:
  assumes "d \<noteq> []" "decode_throws P d"
  shows "extractBody P (RawMessage (Some text_plain) (Some (MessagePartBody (Some d))) ps) = []"
  using assms
  by (simp add: single_part_def truthy_def body_data_def text_plain_def js_def Let_def
      decode_throws_empty)

text \<open>
  Claim C2. Extraction is a total function on message trees and has no exceptional
  result: each built-in that can throw is called inside a \<open>try\<close> and its exception
  becomes the empty string. A tree without a textual leaf (and an absent payload)
  yields the empty string; data that fails to decode yields the empty string for its
  node, and the loop over the siblings goes on after such a node.
\<close>

theorem extract_never_raises:
  "(\<not> has_textual p \<longrightarrow> extractBody P p = [])
   \<and> extractEmailBody P None = []
   \<and> (decode_throws P d \<longrightarrow> decodeBase64 P d = [])
   \<and> (d \<noteq> [] \<and> decode_throws P d \<longrightarrow>
        extractBody P (RawMessage (Some text_plain) (Some (MessagePartBody (Some d))) ps) = []
        \<and> nestedBody P (RawMessage (Some text_plain) (Some (MessagePartBody (Some d))) ps # rest)
            = nestedBody P rest)"
proof (intro conjI impI)
  show "\<not> has_textual p \<Longrightarrow> extractBody P p = []"
    by (rule no_textual_extractBody)
  show "extractEmailBody P None = []"
    by (simp add: extractEmailBody_def)
  show "decode_throws P d \<Longrightarrow> decodeBase64 P d = []"
    by (rule decode_throws_empty)
next
  assume h: "d \<noteq> [] \<and> decode_throws P d"
  then show e: "extractBody P (RawMessage (Some text_plain) (Some (MessagePartBody (Some d))) ps) = []"
    using undecodable_plain_node by blast
  show "nestedBody P (RawMessage (Some text_plain) (Some (MessagePartBody (Some d))) ps # rest)
          = nestedBody P rest"
    by (simp only: nestedBody.simps e Let_def) simp
qed

lemma extract_example_message: "extractBody browser example_message = js ''Hello world''"
proof -
  have "single_part browser example_message = None"
    unfolding example_message_def
    by (rule single_part_multipart) (simp_all add: text_plain_def text_html_def js_def)
  moreover have "find plain_part [example_html_part, example_plain_part] = Some example_plain_part"
    by (simp add: plain_part_def example_plain_part_def example_html_part_def body_data_def
        text_plain_def text_html_def js_def)
  moreover have "body_data example_plain_part = js ''SGVsbG8gd29ybGQ''"
    by (simp add: example_plain_part_def body_data_def)
  ultimately show ?thesis
    by (simp add: example_message_def decode_example_plain)
qed

theorem extract_never_raises_witness:
  "\<not> has_textual (RawMessage (Some (js ''multipart/mixed'')) None [example_attachment, example_attachment])
   \<and> extractBody browser
        (RawMessage (Some (js ''multipart/mixed'')) None [example_attachment, example_attachment]) = []
   \<and> decode_throws browser (js ''SGVsb'')
   \<and> decodeBase64 browser (js ''SGVsb'') = []
   \<and> extractBody browser example_undecodable = []
   \<and> nestedBody browser [example_undecodable, example_message] = js ''Hello world''"
proof -
  let ?t = "RawMessage (Some (js ''multipart/mixed'')) None [example_attachment, example_attachment]"
  have nt: "\<not> has_textual ?t"
    by (simp add: example_attachment_def text_plain_def text_html_def js_def)
  have dt: "decode_throws browser (js ''SGVsb'')"
    by (simp add: eval_regex eval_browser)
  have ne: "js ''SGVsb'' \<noteq> []" by (simp add: js_def)
  note inst = extract_never_raises [of ?t browser "js ''SGVsb''" "[]" "[example_message]"]
  from inst nt have a: "extractBody browser ?t = []" by blast
  from inst dt have b: "decodeBase64 browser (js ''SGVsb'') = []" by blast
  from inst dt ne have c: "extractBody browser example_undecodable = []"
    and d: "nestedBody browser [example_undecodable, example_message]
            = nestedBody browser [example_message]"
    unfolding example_undecodable_def by blast+
  have "js ''Hello world'' \<noteq> []" by (simp add: js_def)
  with extract_example_message have f: "nestedBody browser [example_message] = js ''Hello world''"
    by simp
  from nt a dt b c d f show ?thesis by simp
qed

section \<open>Properties of the duplicate tracker\<close>

lemma set_Set_add: "set (Set_add s x) = insert x (set s)"
  by (auto simp: Set_add_def)

lemma set_foldl_Set_add: "set (foldl Set_add s arr) = set s \<union> set arr"
  by (induction arr arbitrary: s) (auto simp: set_Set_add)

lemma set_new_Set: "set (new_Set arr) = set arr"
  by (simp add: new_Set_def set_foldl_Set_add)

lemma has_reload_markAsProcessed:
  "has (reload (markAsProcessed i w)) j = (j = i \<or> has w j)"
  by (cases w)
     (auto simp: has_def reload_def loadStoredData_def markAsProcessed_def Set_has_def
                 set_new_Set set_Set_add Array_from_def Let_def)

lemma has_reload_clearProcessed: "\<not> has (reload (clearProcessed w)) j"
  by (cases w)
     (simp add: has_def reload_def loadStoredData_def clearProcessed_def Set_has_def
                set_new_Set Let_def)

text \<open>
  Claim C9. After \<open>markAsProcessed i\<close> has written the set to the store as an array, a
  reload from the store knows \<open>i\<close>; after \<open>clearProcessed\<close> has written the empty array, a
  reload knows no identifier, \<open>i\<close> included. The round trip from set to array to set
  keeps membership exactly: after a reload an identifier is known if and only if it is
  the one just marked or was known before.
\<close>

theorem dedup_roundtrip:
  "has (reload (markAsProcessed i w)) i
   \<and> \<not> has (reload (clearProcessed w)) i
   \<and> \<not> has (reload (clearProcessed (markAsProcessed i w))) i
   \<and> has (reload (markAsProcessed i w)) j = (j = i \<or> has w j)"
  by (simp add: has_reload_markAsProcessed has_reload_clearProcessed)

theorem dedup_roundtrip_witness:
  "has (reload (markAsProcessed (js ''m1'') (GmailNotifier_new, \<lparr>processed_messages = None, stored_pollingInterval = None\<rparr>))) (js ''m1'')
   \<and> \<not> has (reload (clearProcessed (markAsProcessed (js ''m1'') (GmailNotifier_new, \<lparr>processed_messages = None, stored_pollingInterval = None\<rparr>)))) (js ''m1'')"
  using dedup_roundtrip [of "js ''m1''" "(GmailNotifier_new, \<lparr>processed_messages = None, stored_pollingInterval = None\<rparr>)" "js ''m1''"]
  by simp

section \<open>Properties of the rule-based classifier\<close>

lemma fallback_tag_cases:
  "tag (basicFallback P subject text) = js ''Reply Required''
   \<or> tag (basicFallback P subject text) = js ''FYI''
   \<or> tag (basicFallback P subject text) = js ''No Reply Needed''"
  by (simp add: basicFallback_def)

text \<open>
  Claim C6, as amended. \<open>basicFallback\<close> is a strict top-down cascade of four
  case-insensitive patterns on the text: the first row that matches decides summary and
  tag alone, the rows being interview, event, request for a response (all three
  \<open>Reply Required\<close>) and update (\<open>FYI\<close>), with \<open>No Reply Needed\<close> when no row matches. There
  is no row for urgency: the tag is never \<open>Urgent\<close>.
\<close>

theorem basicFallback_cascade:
  "tag (basicFallback P subject text) \<noteq> js ''Urgent''
   \<and> (test True rx_interview text \<longrightarrow>
        basicFallback P subject text =
          \<lparr>summary = js ''Interview-related email; reply to confirm next steps.'',
           tag = js ''Reply Required''\<rparr>)
   \<and> (\<not> test True rx_interview text \<and> test True rx_event text \<longrightarrow>
        basicFallback P subject text =
          \<lparr>summary = js ''Event invitation; reply if you want to attend.'',
           tag = js ''Reply Required''\<rparr>)
   \<and> (\<not> test True rx_interview text \<and> \<not> test True rx_event text \<and> test True rx_respond text \<longrightarrow>
        basicFallback P subject text =
          \<lparr>summary = js ''This email asks for your response or confirmation.'',
           tag = js ''Reply Required''\<rparr>)
   \<and> (\<not> test True rx_interview text \<and> \<not> test True rx_event text \<and> \<not> test True rx_respond text
        \<and> test True rx_update text \<longrightarrow>
        basicFallback P subject text =
          \<lparr>summary = js ''This email shares an update or announcement.'', tag = js ''FYI''\<rparr>)
   \<and> (\<not> test True rx_interview text \<and> \<not> test True rx_event text \<and> \<not> test True rx_respond text
        \<and> \<not> test True rx_update text \<longrightarrow>
        tag (basicFallback P subject text) = js ''No Reply Needed'')"
proof -
  have "js ''Reply Required'' \<noteq> js ''Urgent''" "js ''FYI'' \<noteq> js ''Urgent''"
    "js ''No Reply Needed'' \<noteq> js ''Urgent''"
    by (simp_all add: js_def)
  with fallback_tag_cases [of P subject "text"]
  have "tag (basicFallback P subject text) \<noteq> js ''Urgent''" by auto
  then show ?thesis by (simp add: basicFallback_def)
qed

lemma urgent_text_no_row:
  "\<not> test True rx_interview (js ''urgent deadline tomorrow'')"
  "\<not> test True rx_event (js ''urgent deadline tomorrow'')"
  "\<not> test True rx_respond (js ''urgent deadline tomorrow'')"
  "\<not> test True rx_update (js ''urgent deadline tomorrow'')"
  by (simp_all add: eval_regex eval_fallback)

text \<open>
  Claim C6 as stated fails: the text \<open>urgent deadline tomorrow\<close> matches no row and is
  tagged \<open>No Reply Needed\<close>.
\<close>

theorem urgent_deadline_not_urgent:
  "basicFallback browser (js ''Project'') (js ''urgent deadline tomorrow'')
     = \<lparr>summary = js ''This email is about project.'', tag = js ''No Reply Needed''\<rparr>
   \<and> tag (basicFallback browser (js ''Project'') (js ''urgent deadline tomorrow'')) \<noteq> js ''Urgent''"
  by (simp add: basicFallback_def urgent_text_no_row browser_def) (simp add: js_def)

theorem basicFallback_cascade_witness:
  "tag (basicFallback browser (js ''Project'') (js ''urgent deadline tomorrow'')) = js ''No Reply Needed''
   \<and> test True rx_update (js ''Weekly Newsletter'')
   \<and> basicFallback browser (js ''Project'') (js ''Weekly Newsletter'')
       = \<lparr>summary = js ''This email shares an update or announcement.'', tag = js ''FYI''\<rparr>"
proof -
  have a: "\<not> test True rx_interview (js ''Weekly Newsletter'')"
    "\<not> test True rx_event (js ''Weekly Newsletter'')"
    "\<not> test True rx_respond (js ''Weekly Newsletter'')"
    "test True rx_update (js ''Weekly Newsletter'')"
    by (simp_all add: eval_regex eval_fallback)
  from basicFallback_cascade [of browser "js ''Project''" "js ''urgent deadline tomorrow''"]
    urgent_text_no_row
  have "tag (basicFallback browser (js ''Project'') (js ''urgent deadline tomorrow'')) = js ''No Reply Needed''"
    by blast
  moreover from basicFallback_cascade [of browser "js ''Project''" "js ''Weekly Newsletter''"] a
  have "basicFallback browser (js ''Project'') (js ''Weekly Newsletter'')
       = \<lparr>summary = js ''This email shares an update or announcement.'', tag = js ''FYI''\<rparr>"
    by blast
  ultimately show ?thesis using a by simp
qed

section \<open>Properties of the regular-expression matcher\<close>

lemma ends_suffix:
  "st' \<in> set (ends i r st) \<Longrightarrow> \<exists>pre. snd st = pre @ snd st'"
proof (induction i r st arbitrary: st' rule: ends.induct)
  case (1 i c st)
  show ?case
  proof (cases "snd st")
    case Nil
    with "1.prems" show ?thesis by simp
  next
    case (Cons x xs)
    with "1.prems" have "snd st' = xs" by (auto split: if_splits)
    with Cons show ?thesis by (intro exI [of _ "[x]"]) simp
  qed
next
  case (5 i p q st)
  from "5.prems" obtain m where m: "m \<in> set (ends i p st)" "st' \<in> set (ends i q m)"
    by auto
  from "5.IH"(1) [OF m(1)] obtain a where "snd st = a @ snd m" by blast
  moreover from "5.IH"(2) [OF m(1) m(2)] obtain b where "snd m = b @ snd st'" by blast
  ultimately show ?case by simp
next
  case (8 i p st)
  show ?case
  proof (cases "st' = st")
    case True
    then show ?thesis by simp
  next
    case False
    with "8.prems" obtain m where m: "m \<in> set (ends i p st)"
      "length (snd m) < length (snd st)" "st' \<in> set (ends i (Star p) m)"
      by (subst (asm) ends.simps(8)) (auto split: if_splits)
    from "8.IH"(1) [OF m(1)] obtain a where "snd st = a @ snd m" by blast
    moreover from "8.IH"(2) [OF m(1) m(2) m(3)] obtain b where "snd m = b @ snd st'" by blast
    ultimately show ?thesis by simp
  qed
next
  case (9 i p st)
  show ?case
  proof (cases "st' = st")
    case True
    then show ?thesis by simp
  next
    case False
    with "9.prems" obtain m where m: "m \<in> set (ends i p st)"
      "length (snd m) < length (snd st)" "st' \<in> set (ends i (LazyStar p) m)"
      by (subst (asm) ends.simps(9)) (auto split: if_splits)
    from "9.IH"(1) [OF m(1)] obtain a where "snd st = a @ snd m" by blast
    moreover from "9.IH"(2) [OF m(1) m(2) m(3)] obtain b where "snd m = b @ snd st'" by blast
    ultimately show ?thesis by simp
  qed
qed (auto split: if_splits)

lemma exec_at_suffix: "exec_at i r st = Some rest \<Longrightarrow> \<exists>pre. snd st = pre @ rest"
proof -
  assume "exec_at i r st = Some rest"
  then obtain e es where "ends i r st = e # es" "snd e = rest"
    by (auto simp: exec_at_def split: list.splits)
  then have "e \<in> set (ends i r st)" by simp
  from ends_suffix [OF this] \<open>snd e = rest\<close> show ?thesis by simp
qed

lemma replace_no_match: "\<not> search i r st \<Longrightarrow> replace_from i r rep st = snd st"
proof (induction i r st rule: search.induct)
  case (1 i r st)
  from "1.prems" have n: "exec_at i r st = None"
    by (subst (asm) search.simps) (simp split: if_splits)
  show ?case
  proof (cases "snd st")
    case Nil
    with n show ?thesis by (subst replace_from.simps) simp
  next
    case (Cons x xs)
    with "1.prems" n have "\<not> search i r (False, xs)"
      by (subst (asm) search.simps) simp
    with "1.IH" n Cons have "replace_from i r rep (False, xs) = xs" by simp
    with n Cons show ?thesis by (subst replace_from.simps) simp
  qed
qed

lemma replace_all_no_match: "\<not> test i r s \<Longrightarrow> replace_all i r rep s = s"
  by (simp add: test_def replace_all_def replace_no_match)

lemma set_replace_from: "set (replace_from i r rep st) \<subseteq> set (snd st) \<union> set rep"
proof (induction i r rep st rule: replace_from.induct)
  case (1 i r rep st)
  show ?case
  proof (cases "exec_at i r st")
    case None
    show ?thesis
    proof (cases "snd st")
      case Nil
      with None show ?thesis by (subst replace_from.simps) simp
    next
      case (Cons x xs)
      with "1.IH"(1) None have "set (replace_from i r rep (False, xs)) \<subseteq> set xs \<union> set rep"
        by simp
      with None Cons show ?thesis by (subst replace_from.simps) auto
    qed
  next
    case (Some rest)
    from exec_at_suffix [OF Some] obtain pre where pre: "snd st = pre @ rest" by blast
    show ?thesis
    proof (cases "length rest < length (snd st)")
      case True
      with "1.IH"(2) Some have "set (replace_from i r rep (False, rest)) \<subseteq> set rest \<union> set rep"
        by simp
      with Some True pre show ?thesis by (subst replace_from.simps) auto
    next
      case False
      show ?thesis
      proof (cases "snd st")
        case Nil
        with Some False show ?thesis by (subst replace_from.simps) simp
      next
        case (Cons x xs)
        with "1.IH"(3) Some False have "set (replace_from i r rep (False, xs)) \<subseteq> set xs \<union> set rep"
          by simp
        with Some False Cons show ?thesis by (subst replace_from.simps) auto
      qed
    qed
  qed
qed

lemma set_replace_all: "set (replace_all i r rep s) \<subseteq> set s \<union> set rep"
  using set_replace_from [of i r rep "(True, s)"] by (simp add: replace_all_def)

section \<open>Properties of the sanitizer\<close>

lemma set_trim: "set (trim s) \<subseteq> set s"
proof -
  have "set (trim s) \<subseteq> set (dropWhile is_space s)"
    unfolding trim_def using set_dropWhileD [of _ is_space "rev (dropWhile is_space s)"] by auto
  also have "\<dots> \<subseteq> set s" using set_dropWhileD by fastforce
  finally show ?thesis .
qed

lemma set_cleanEmail: "set (cleanEmail x) \<subseteq> set x \<union> {32}"
proof -
  let ?a = "replace_all True re_greeting [] x"
  let ?b = "replace_all True re_wrote [] ?a"
  let ?c = "replace_all True re_original [] ?b"
  let ?d = "replace_all True re_sent [] ?c"
  let ?e = "replace_all False re_url [] ?d"
  let ?f = "replace_all False re_ws (js '' '') ?e"
  have "set ?a \<subseteq> set x" using set_replace_all [of True re_greeting "[]" x] by simp
  moreover have "set ?b \<subseteq> set ?a" using set_replace_all [of True re_wrote "[]" ?a] by simp
  moreover have "set ?c \<subseteq> set ?b" using set_replace_all [of True re_original "[]" ?b] by simp
  moreover have "set ?d \<subseteq> set ?c" using set_replace_all [of True re_sent "[]" ?c] by simp
  moreover have "set ?e \<subseteq> set ?d" using set_replace_all [of False re_url "[]" ?d] by simp
  moreover have "set ?f \<subseteq> set ?e \<union> {32}"
    using set_replace_all [of False re_ws "js '' ''" ?e] by (simp add: js_def)
  moreover have "set (cleanEmail x) \<subseteq> set ?f"
    unfolding cleanEmail_def slice0_def using set_trim [of ?f] set_take_subset [of 900 "trim ?f"]
    by blast
  ultimately show ?thesis by blast
qed

subsection \<open>The white-space stage\<close>

lemma ends_star_class:
  "ends i (Star (Atom c)) (b, s) \<noteq> []
   \<and> snd (hd (ends i (Star (Atom c)) (b, s))) = dropWhile (cls_match i c) s"
proof (induction s arbitrary: b)
  case Nil
  show ?case by (simp add: ends.simps(8))
next
  case (Cons x xs)
  show ?case
  proof (cases "cls_match i c x")
    case True
    have "ends i (Star (Atom c)) (b, x # xs)
          = ends i (Star (Atom c)) (False, xs) @ [(b, x # xs)]"
      using True by (simp add: ends.simps(8))
    with Cons [of False] True show ?thesis by simp
  next
    case False
    then show ?thesis by (simp add: ends.simps(8))
  qed
qed

lemma exec_at_plus_class:
  "exec_at i (Plus (Atom c)) (b, s) =
     (case s of [] \<Rightarrow> None
      | x # xs \<Rightarrow> if cls_match i c x then Some (dropWhile (cls_match i c) xs) else None)"
proof (cases s)
  case Nil
  then show ?thesis by (simp add: exec_at_def Plus_def)
next
  case (Cons x xs)
  show ?thesis
  proof (cases "cls_match i c x")
    case True
    from ends_star_class [of i c False xs]
    obtain e es where "ends i (Star (Atom c)) (False, xs) = e # es"
      "snd e = dropWhile (cls_match i c) xs"
      by (cases "ends i (Star (Atom c)) (False, xs)") auto
    with True Cons show ?thesis by (simp add: exec_at_def Plus_def)
  next
    case False
    with Cons show ?thesis by (simp add: exec_at_def Plus_def)
  qed
qed

lemma exec_at_ws:
  "exec_at False re_ws (b, s) =
     (case s of [] \<Rightarrow> None
      | x # xs \<Rightarrow> if is_space x then Some (dropWhile is_space xs) else None)"
proof -
  have eq: "cls_match False Space = is_space" by (rule ext) simp
  show ?thesis by (simp add: exec_at_plus_class re_ws_def eq split: list.splits)
qed

lemma replace_ws_Nil: "replace_from False re_ws rep (b, []) = []"
  by (subst replace_from.simps) (simp add: exec_at_ws)

lemma replace_ws_Cons:
  "replace_from False re_ws rep (b, x # xs) =
     (if is_space x then rep @ replace_from False re_ws rep (False, dropWhile is_space xs)
      else x # replace_from False re_ws rep (False, xs))"
proof -
  have "length (dropWhile is_space xs) < Suc (length xs)"
    using length_dropWhile_le [of is_space xs] by simp
  then show ?thesis by (subst replace_from.simps) (simp add: exec_at_ws)
qed

lemma collapsed_Cons_nonspace: "\<not> is_space x \<Longrightarrow> collapsed (x # r) = collapsed r"
  by (cases r) simp_all

lemma collapsed_Cons_space:
  "collapsed (32 # r) = ((case r of [] \<Rightarrow> True | d # t \<Rightarrow> \<not> is_space d) \<and> collapsed r)"
  by (cases r) (simp_all add: is_space_def)

lemma collapsed_replace_ws: "collapsed (replace_from False re_ws [32] (b, s))"
proof (induction "length s" arbitrary: b s rule: less_induct)
  case less
  show ?case
  proof (cases s)
    case Nil
    then show ?thesis by (simp add: replace_ws_Nil)
  next
    case (Cons x xs)
    show ?thesis
    proof (cases "is_space x")
      case False
      with less [of xs False] Cons show ?thesis
        by (simp add: replace_ws_Cons collapsed_Cons_nonspace)
    next
      case True
      let ?t = "dropWhile is_space xs"
      have len: "length ?t < length s"
        using length_dropWhile_le [of is_space xs] Cons by simp
      have c: "collapsed (replace_from False re_ws [32] (False, ?t))"
        using less [OF len] .
      have "case replace_from False re_ws [32] (False, ?t) of [] \<Rightarrow> True | d # t \<Rightarrow> \<not> is_space d"
      proof (cases ?t)
        case Nil
        then show ?thesis by (simp only: replace_ws_Nil list.case)
      next
        case (Cons y ys)
        then have "\<not> is_space y" using hd_dropWhile [of is_space xs] by auto
        with Cons show ?thesis by (simp only: replace_ws_Cons if_False list.case) simp
      qed
      with c True Cons show ?thesis
        by (simp add: replace_ws_Cons collapsed_Cons_space)
    qed
  qed
qed

lemma replace_ws_collapsed: "collapsed t \<Longrightarrow> replace_from False re_ws [32] (b, t) = t"
proof (induction t arbitrary: b rule: collapsed.induct)
  case 1
  show ?case by (simp add: replace_ws_Nil)
next
  case (2 c)
  then show ?case by (simp add: replace_ws_Cons replace_ws_Nil)
next
  case (3 c d r)
  then show ?case by (auto simp: replace_ws_Cons)
qed

lemma collapsed_append: "collapsed (xs @ ys) \<Longrightarrow> collapsed xs \<and> collapsed ys"
proof (induction xs rule: collapsed.induct)
  case 1
  then show ?case by simp
next
  case (2 c)
  then show ?case by (cases ys) (auto split: if_splits)
next
  case (3 c d r)
  then show ?case by (auto split: if_splits)
qed

lemma collapsed_take: "collapsed s \<Longrightarrow> collapsed (take n s)"
  using collapsed_append [of "take n s" "drop n s"] by simp

lemma collapsed_dropWhile: "collapsed s \<Longrightarrow> collapsed (dropWhile Q s)"
  using collapsed_append [of "takeWhile Q s" "dropWhile Q s"] by simp

lemma trim_prefix: "\<exists>rest. dropWhile is_space s = trim s @ rest"
proof -
  let ?g = "dropWhile is_space s"
  have "rev ?g = takeWhile is_space (rev ?g) @ dropWhile is_space (rev ?g)" by simp
  then have "?g = rev (dropWhile is_space (rev ?g)) @ rev (takeWhile is_space (rev ?g))"
    by (metis rev_append rev_rev_ident)
  then show ?thesis unfolding trim_def by blast
qed

lemma collapsed_trim: "collapsed s \<Longrightarrow> collapsed (trim s)"
proof -
  assume "collapsed s"
  then have "collapsed (dropWhile is_space s)" by (rule collapsed_dropWhile)
  moreover obtain rest where "dropWhile is_space s = trim s @ rest" using trim_prefix by blast
  ultimately show ?thesis using collapsed_append by metis
qed

lemma collapsed_space: "collapsed s \<Longrightarrow> c \<in> set s \<Longrightarrow> is_space c \<Longrightarrow> c = 32"
  by (induction s rule: collapsed.induct) (auto split: if_splits)

lemma collapsed_no_newline: "collapsed s \<Longrightarrow> 10 \<notin> set s"
  using collapsed_space [of s 10] by (auto simp: is_space_def)

lemma trim_hd: "trim s \<noteq> [] \<Longrightarrow> \<not> is_space (hd (trim s))"
proof -
  assume ne: "trim s \<noteq> []"
  obtain rest where r: "dropWhile is_space s = trim s @ rest" using trim_prefix by blast
  with ne have "hd (trim s) = hd (dropWhile is_space s)" by simp
  moreover from r ne have "dropWhile is_space s \<noteq> []" by simp
  ultimately show ?thesis using hd_dropWhile by metis
qed

lemma trim_id:
  assumes "s = [] \<or> (\<not> is_space (hd s) \<and> \<not> is_space (last s))"
  shows "trim s = s"
proof (cases s)
  case Nil
  then show ?thesis by (simp add: trim_def)
next
  case (Cons x xs)
  with assms have h: "\<not> is_space x" and l: "\<not> is_space (last s)" by auto
  from h Cons have "dropWhile is_space s = s" by simp
  moreover have "dropWhile is_space (rev s) = rev s"
  proof (cases "rev s")
    case Nil
    then show ?thesis by simp
  next
    case (Cons a as)
    with hd_rev [of s] have "a = last s" by (cases s) auto
    with l have "\<not> is_space a" by simp
    then have "dropWhile is_space (a # as) = a # as" by simp
    with Cons show ?thesis by simp
  qed
  ultimately show ?thesis by (simp add: trim_def)
qed

subsection \<open>Where a pattern can match\<close>

lemma ends_set: "st' \<in> set (ends i r st) \<Longrightarrow> set (snd st') \<subseteq> set (snd st)"
  using ends_suffix [of st' i r st] by auto

lemma search_elim:
  "search i r st \<Longrightarrow> \<exists>b t e. set t \<subseteq> set (snd st) \<and> e \<in> set (ends i r (b, t))"
proof (induction i r st rule: search.induct)
  case (1 i r st)
  show ?case
  proof (cases "exec_at i r st")
    case (Some rest)
    then obtain e where "e \<in> set (ends i r (fst st, snd st))"
      by (auto simp: exec_at_def split: list.splits)
    then show ?thesis by blast
  next
    case None
    with "1.prems" obtain x xs where xs: "snd st = x # xs" "search i r (False, xs)"
      by (subst (asm) search.simps) (auto split: list.splits)
    with "1.IH" None obtain b t e where bt: "set t \<subseteq> set xs" "e \<in> set (ends i r (b, t))"
      by auto
    from bt(1) xs(1) have "set t \<subseteq> set (snd st)" by auto
    with bt(2) show ?thesis by blast
  qed
qed

lemma ends_Seq_elim:
  "e \<in> set (ends i (Seq p q) st) \<Longrightarrow> \<exists>m \<in> set (ends i p st). e \<in> set (ends i q m)"
  by auto

lemma ends_Atom_elim:
  "e \<in> set (ends i (Atom c) st) \<Longrightarrow> \<exists>x xs. snd st = x # xs \<and> cls_match i c x \<and> e = (False, xs)"
  by (cases "snd st") (auto split: if_splits)

lemma lit_chars:
  "e \<in> set (ends i (lit w) st) \<Longrightarrow> c \<in> set w \<Longrightarrow> \<exists>x \<in> set (snd st). same_char i (of_char c) x"
proof (induction w arbitrary: st)
  case Nil
  then show ?case by simp
next
  case (Cons a w)
  from Cons.prems(1) have "e \<in> set (ends i (Seq (Atom (Ch (of_char a))) (lit w)) st)"
    by simp
  from ends_Seq_elim [OF this] obtain m where m: "m \<in> set (ends i (Atom (Ch (of_char a))) st)"
    "e \<in> set (ends i (lit w) m)" by blast
  from ends_Atom_elim [OF m(1)] m(2) obtain x xs where st: "snd st = x # xs"
    "same_char i (of_char a) x" "e \<in> set (ends i (lit w) (False, xs))"
    by auto
  show ?case
  proof (cases "c = a")
    case True
    with st show ?thesis by auto
  next
    case False
    with Cons.prems(2) have "c \<in> set w" by simp
    from Cons.IH [OF st(3) this] st(1) show ?thesis by auto
  qed
qed

lemma search_needs_char:
  assumes "search i (Seq (lit w) r) st" "c \<in> set w"
  shows "\<exists>x \<in> set (snd st). same_char i (of_char c) x"
proof -
  from search_elim [OF assms(1)] obtain b t e where t: "set t \<subseteq> set (snd st)"
    "e \<in> set (ends i (Seq (lit w) r) (b, t))" by blast
  from ends_Seq_elim [OF t(2)] obtain m where "m \<in> set (ends i (lit w) (b, t))" by blast
  from lit_chars [OF this assms(2)] t(1) show ?thesis by auto
qed

lemma same_char_True_cases: "same_char True a x \<Longrightarrow> 97 \<le> a \<Longrightarrow> a \<le> 122 \<Longrightarrow> x = a \<or> x = a - 32"
  by (auto simp: same_char_def canonicalize_def split: if_splits)

lemma no_wrote: "111 \<notin> set s \<Longrightarrow> 79 \<notin> set s \<Longrightarrow> \<not> test True re_wrote s"
proof
  assume a: "111 \<notin> set s" "79 \<notin> set s" and "test True re_wrote s"
  then have "search True (Seq (lit ''on '') (seqs [Star (Atom Dot), lit '' wrote:'', Star (Atom AnyChar)])) (True, s)"
    by (simp add: test_def re_wrote_def)
  from search_needs_char [OF this, of "CHR ''o''"] obtain x where "x \<in> set s" "same_char True 111 x"
    by auto
  with same_char_True_cases [of 111 x] a show False by auto
qed

lemma no_original: "111 \<notin> set s \<Longrightarrow> 79 \<notin> set s \<Longrightarrow> \<not> test True re_original s"
proof
  assume a: "111 \<notin> set s" "79 \<notin> set s" and "test True re_original s"
  then have "search True (Seq (lit ''-----original message-----'') (Star (Atom AnyChar))) (True, s)"
    by (simp add: test_def re_original_def)
  from search_needs_char [OF this, of "CHR ''o''"] obtain x where "x \<in> set s" "same_char True 111 x"
    by auto
  with same_char_True_cases [of 111 x] a show False by auto
qed

lemma no_sent: "115 \<notin> set s \<Longrightarrow> 83 \<notin> set s \<Longrightarrow> \<not> test True re_sent s"
proof
  assume a: "115 \<notin> set s" "83 \<notin> set s" and "test True re_sent s"
  then have "search True (Seq (lit ''sent from my'') (seqs [Star (Atom Dot), Eol])) (True, s)"
    by (simp add: test_def re_sent_def)
  from search_needs_char [OF this, of "CHR ''s''"] obtain x where "x \<in> set s" "same_char True 115 x"
    by auto
  with same_char_True_cases [of 115 x] a show False by auto
qed

lemma no_url: "104 \<notin> set s \<Longrightarrow> \<not> test False re_url s"
proof
  assume a: "104 \<notin> set s" and "test False re_url s"
  then have "search False (Seq (lit ''http'') (seqs [Opt (Atom (Ch 115)), lit ''://'', Plus (Atom NonSpace)])) (True, s)"
    by (simp add: test_def re_url_def)
  from search_needs_char [OF this, of "CHR ''h''"] obtain x where "x \<in> set s" "same_char False 104 x"
    by auto
  with a show False by (simp add: same_char_def)
qed

lemma no_greeting: "10 \<notin> set s \<Longrightarrow> \<not> test True re_greeting s"
proof
  assume a: "10 \<notin> set s" and "test True re_greeting s"
  then have "search True re_greeting (True, s)" by (simp add: test_def)
  from search_elim [OF this] obtain b t e where t: "set t \<subseteq> set s"
    "e \<in> set (ends True re_greeting (b, t))" by auto
  let ?A = "alts [lit ''hi'', lit ''hello'', lit ''dear'']"
  have "re_greeting = Seq Bol (Seq ?A (Seq (LazyStar (Atom Dot)) (Atom (Ch 10))))"
    by (simp only: re_greeting_def seqs.simps)
  with t(2) have "e \<in> set (ends True (Seq Bol (Seq ?A (Seq (LazyStar (Atom Dot)) (Atom (Ch 10))))) (b, t))"
    by simp
  from ends_Seq_elim [OF this] obtain m1 where m1: "m1 \<in> set (ends True Bol (b, t))"
    "e \<in> set (ends True (Seq ?A (Seq (LazyStar (Atom Dot)) (Atom (Ch 10)))) m1)" by blast
  from ends_Seq_elim [OF m1(2)] obtain m2 where m2: "m2 \<in> set (ends True ?A m1)"
    "e \<in> set (ends True (Seq (LazyStar (Atom Dot)) (Atom (Ch 10))) m2)" by blast
  from ends_Seq_elim [OF m2(2)] obtain m3 where m3: "m3 \<in> set (ends True (LazyStar (Atom Dot)) m2)"
    "e \<in> set (ends True (Atom (Ch 10)) m3)" by blast
  note m = m1(1) m2(1) m3(1) m3(2)
  from ends_Atom_elim [OF m(4)] obtain x xs where x: "snd m3 = x # xs" "same_char True 10 x"
    by auto
  then have "x = 10" by (auto simp: same_char_def canonicalize_def split: if_splits)
  with x have "10 \<in> set (snd m3)" by simp
  with ends_set [OF m(3)] ends_set [OF m(2)] ends_set [OF m(1)] t(1) a show False by auto
qed

subsection \<open>Texts that cleanEmail leaves alone\<close>

lemma cleanEmail_fixed:
  assumes "\<not> test True re_wrote y" "\<not> test True re_original y" "\<not> test True re_sent y"
    "\<not> test False re_url y" "collapsed y"
    "y = [] \<or> (\<not> is_space (hd y) \<and> \<not> is_space (last y))" "length y \<le> 900"
  shows "cleanEmail y = y"
proof -
  have g: "\<not> test True re_greeting y"
    using assms(5) by (intro no_greeting collapsed_no_newline)
  have ws: "replace_all False re_ws (js '' '') y = y"
    using replace_ws_collapsed [OF assms(5), of True] by (simp add: replace_all_def js_def)
  show ?thesis
    unfolding cleanEmail_def slice0_def
    by (simp only: replace_all_no_match [OF g] replace_all_no_match [OF assms(1)]
        replace_all_no_match [OF assms(2)] replace_all_no_match [OF assms(3)]
        replace_all_no_match [OF assms(4)] ws trim_id [OF assms(6)])
       (simp add: assms(7))
qed

lemma collapsed_cleanEmail: "collapsed (cleanEmail x)"
proof -
  have "collapsed (replace_all False re_ws (js '' '') s)" for s
    using collapsed_replace_ws [of True s] by (simp add: replace_all_def js_def)
  then show ?thesis
    unfolding cleanEmail_def slice0_def by (intro collapsed_take collapsed_trim)
qed

lemma length_cleanEmail: "length (cleanEmail x) \<le> 900"
  by (simp add: cleanEmail_def slice0_def)

lemma hd_cleanEmail: "cleanEmail x \<noteq> [] \<Longrightarrow> \<not> is_space (hd (cleanEmail x))"
proof -
  let ?t = "trim (replace_all False re_ws (js '' '')
           (replace_all False re_url []
             (replace_all True re_sent []
               (replace_all True re_original []
                 (replace_all True re_wrote []
                   (replace_all True re_greeting [] x))))))"
  assume ne: "cleanEmail x \<noteq> []"
  then have "?t \<noteq> []" by (auto simp: cleanEmail_def slice0_def)
  from trim_hd [OF this] have "\<not> is_space (hd ?t)" .
  moreover have "hd (cleanEmail x) = hd ?t"
    using ne by (simp add: cleanEmail_def slice0_def hd_take)
  ultimately show ?thesis by simp
qed

subsection \<open>Counting words\<close>

lemma tokens_from_bound:
  "2 * length (tokens_from cur s) \<le> length s + (if cur = [] then 1 else 2)"
  by (induction cur s rule: tokens_from.induct) (auto split: if_splits)

lemma word_count_bound: "2 * word_count s \<le> length s + 1"
  using tokens_from_bound [of "[]" s] by (simp add: word_count_def tokens_def)

lemma many_words_Suc: "many_words (Suc n) = 97 # 32 # many_words n"
  by (simp add: many_words_def js_def)

lemma many_words_hd: "many_words n = 97 # tl (many_words n)"
  by (cases n) (simp_all add: many_words_def js_def)

lemma many_words_last: "last (many_words n) = 97"
  by (simp add: many_words_def js_def)

lemma many_words_set: "set (many_words n) \<subseteq> {97, 32}"
  by (induction n) (auto simp: many_words_Suc, simp add: many_words_def js_def)

lemma many_words_length: "length (many_words n) = 2 * n + 1"
  by (induction n) (simp_all add: many_words_Suc, simp add: many_words_def js_def)

lemma many_words_collapsed: "collapsed (many_words n)"
proof (induction n)
  case 0
  show ?case by (simp add: many_words_def js_def is_space_def)
next
  case (Suc n)
  define r where "r = tl (many_words n)"
  have r: "many_words n = 97 # r" unfolding r_def by (rule many_words_hd)
  with Suc have "collapsed (97 # r)" by simp
  then have c: "collapsed (97 # 32 # 97 # r)" by (simp add: is_space_def)
  show ?case unfolding many_words_Suc r by (rule c)
qed

lemma many_words_tokens: "word_count (many_words n) = Suc n"
proof -
  have "tokens_from [] (many_words n) = replicate (Suc n) [97]"
    by (induction n) (simp_all add: many_words_Suc is_space_def, simp add: many_words_def js_def is_space_def)
  then show ?thesis by (simp add: word_count_def tokens_def)
qed

lemma cleanEmail_many_words: "n \<le> 449 \<Longrightarrow> cleanEmail (many_words n) = many_words n"
proof (rule cleanEmail_fixed)
  assume n: "n \<le> 449"
  have s: "111 \<notin> set (many_words n)" "79 \<notin> set (many_words n)" "115 \<notin> set (many_words n)"
    "83 \<notin> set (many_words n)" "104 \<notin> set (many_words n)"
    using many_words_set [of n] by auto
  from s show "\<not> test True re_wrote (many_words n)" by (intro no_wrote)
  from s show "\<not> test True re_original (many_words n)" by (intro no_original)
  from s show "\<not> test True re_sent (many_words n)" by (intro no_sent)
  from s show "\<not> test False re_url (many_words n)" by (intro no_url)
  show "collapsed (many_words n)" by (rule many_words_collapsed)
  define r where "r = tl (many_words n)"
  have "many_words n = 97 # r" unfolding r_def by (rule many_words_hd)
  then have "hd (many_words n) = 97" by simp
  then show "many_words n = [] \<or> \<not> is_space (hd (many_words n)) \<and> \<not> is_space (last (many_words n))"
    by (simp add: many_words_last is_space_def)
  from n show "length (many_words n) \<le> 900" by (simp add: many_words_length)
qed

text \<open>
  Claim C3, as amended. The last stage of \<open>cleanEmail\<close> cuts the text to its first 900
  code units, not to 400 words: the result has at most 900 code units and therefore at
  most 450 whitespace-delimited tokens.
\<close>

theorem cleanEmail_bounded:
  "length (cleanEmail x) \<le> 900 \<and> word_count (cleanEmail x) \<le> 450"
  using word_count_bound [of "cleanEmail x"] length_cleanEmail [of x] by simp

theorem cleanEmail_bounded_witness:
  "length (cleanEmail (many_words 449)) \<le> 900 \<and> word_count (cleanEmail (many_words 449)) = 450"
proof -
  have "cleanEmail (many_words 449) = many_words 449" by (rule cleanEmail_many_words) simp
  with cleanEmail_bounded [of "many_words 449"] show ?thesis
    by (simp add: many_words_tokens)
qed

text \<open>
  Claim C3 as stated fails: a text of 401 one-letter words separated by single spaces has
  801 code units and comes out unchanged, with its 401 words.
\<close>

theorem cleanEmail_401_words:
  "cleanEmail (many_words 400) = many_words 400 \<and> word_count (cleanEmail (many_words 400)) = 401
   \<and> 400 < word_count (cleanEmail (many_words 400))"
proof -
  have "cleanEmail (many_words 400) = many_words 400" by (rule cleanEmail_many_words) simp
  then show ?thesis by (simp add: many_words_tokens)
qed

end
